theory Spec2Isabelle
  imports Main
begin

section \<open>The prompt/label builder of Finetuning\_Deepspeed.ipynb\<close>

text \<open>
  The notebook defines one function with a contract of its own,
  \<^verbatim>\<open>preprocess_sample(example, tokenizer, max_len=1024)\<close>. It reads three fields of
  a dictionary, builds a prompt and a full training text, asks the tokenizer for both
  encodings and masks the labels. The tokenizer is a collaborator from a library: it is
  a parameter of the model, and what the claims ask of it is the predicate
  \<open>tokenizer_contract\<close> below.
\<close>

subsection \<open>Data\<close>

text \<open>
  The exceptions the function itself can raise: \<^verbatim>\<open>example["user"]\<close> on a missing key
  (KeyError, carrying the key), and the boolean-mask assignment
  \<^verbatim>\<open>labels[attn == 0] = -100\<close> when the mask and the tensor differ in shape
  (IndexError).
\<close>

datatype error = KeyError string | IndexError

text \<open>
  What a tokenizer call returns. With \<^verbatim>\<open>return_tensors="pt"\<close> both fields are
  tensors with one row; the source takes row 0 of each, and the model keeps that row.
\<close>

record encoding =
  enc_input_ids :: "int list"
  enc_attention_mask :: "int list"

text \<open>
  The call \<^verbatim>\<open>tokenizer(text, max_length=max_len, padding="max_length", truncation=True,
  return_tensors="pt")\<close>: the text and the length are the only arguments that vary.
\<close>

type_synonym tokenizer = "string \<Rightarrow> int \<Rightarrow> encoding"

text \<open>The returned dictionary, with its three keys.\<close>

record encoded_example =
  input_ids :: "int list"
  attention_mask :: "int list"
  labels :: "int list"

subsection \<open>Strings\<close>

text \<open>
  \<^verbatim>\<open>str.strip()\<close> removes leading and trailing whitespace. A \<open>char\<close> stands for a
  code point below 256; the whitespace code points of Python in that range are
  9 to 13, 28 to 32, 133 and 160.
\<close>

definition isspace :: "char \<Rightarrow> bool" where
  "isspace c = ((of_char c :: nat) \<in> set [9, 10, 11, 12, 13, 28, 29, 30, 31, 32, 133, 160])"

definition strip :: "string \<Rightarrow> string" where
  "strip s = rev (dropWhile isspace (rev (dropWhile isspace s)))"

text \<open>
  \<^verbatim>\<open>full_ans = f"{assistant}\nReasoning: {reasoning}" if reasoning else assistant\<close>:
  a string is true when it is not empty.
\<close>

definition full_ans_of :: "string \<Rightarrow> string \<Rightarrow> string" where
  "full_ans_of assistant reasoning =
     (if reasoning \<noteq> [] then assistant @ ''\<newline>Reasoning: '' @ reasoning else assistant)"

text \<open>\<^verbatim>\<open>prompt = f"### User:\n{user}\n\n### Assistant:\n"\<close>\<close>

definition prompt_of :: "string \<Rightarrow> string" where
  "prompt_of user = ''### User:\<newline>'' @ user @ ''\<newline>\<newline>### Assistant:\<newline>''"

subsection \<open>Label masking\<close>

text \<open>
  The end of the slice \<^verbatim>\<open>[:k]\<close> of a sequence of length \<open>n\<close>: a negative \<open>k\<close> counts
  from the end, and the result is clipped to the sequence.
\<close>

definition slice_stop :: "int \<Rightarrow> nat \<Rightarrow> nat" where
  "slice_stop k n = (if k < 0 then nat (max 0 (int n + k)) else min (nat k) n)"

text \<open>\<^verbatim>\<open>labels[:prompt_len] = -100\<close>\<close>

definition mask_prompt :: "int \<Rightarrow> int list \<Rightarrow> int list" where
  "mask_prompt prompt_len ls =
     (let k = slice_stop prompt_len (length ls) in replicate k (- 100) @ drop k ls)"

text \<open>
  \<^verbatim>\<open>labels[attn == 0] = -100\<close>, for a mask of the shape of the labels (the caller
  checks the shape).
\<close>

definition mask_padding :: "int list \<Rightarrow> int list \<Rightarrow> int list" where
  "mask_padding attn ls = map2 (\<lambda>a l. if a = 0 then - 100 else l) attn ls"

text \<open>
  \<^verbatim>\<open>prompt_len = prompt_ids.attention_mask[0].sum().item()\<close>, where \<^verbatim>\<open>prompt_ids\<close> is the
  tokenizer's answer on the prompt alone.
\<close>

definition prompt_len_of :: "tokenizer \<Rightarrow> int \<Rightarrow> string \<Rightarrow> int" where
  "prompt_len_of tokenizer max_len prompt =
     sum_list (enc_attention_mask (tokenizer prompt max_len))"

subsection \<open>The builder\<close>

text \<open>
  The first half of \<^verbatim>\<open>preprocess_sample\<close>, up to the comment \<^verbatim>\<open># Tokenize\<close>: the
  fields are read (\<^verbatim>\<open>example["user"]\<close> and \<^verbatim>\<open>example["assistant"]\<close> raise on a missing
  key, \<^verbatim>\<open>example.get("reasoning", "")\<close> does not), stripped, and combined. The result
  is the pair of the local variables \<^verbatim>\<open>prompt\<close> and \<^verbatim>\<open>full_ans\<close>.
\<close>

definition build_texts :: "(string \<rightharpoonup> string) \<Rightarrow> error + string \<times> string" where
  "build_texts example =
     (case example ''user'' of
        None \<Rightarrow> Inl (KeyError ''user'')
      | Some u \<Rightarrow>
     (case example ''assistant'' of
        None \<Rightarrow> Inl (KeyError ''assistant'')
      | Some a \<Rightarrow>
        (let user = strip u;
             assistant = strip a;
             reasoning = strip (case example ''reasoning'' of None \<Rightarrow> [] | Some r \<Rightarrow> r);
             full_ans = full_ans_of assistant reasoning;
             prompt = prompt_of user
         in Inr (prompt, full_ans))))"

text \<open>
  The second half: the tokenizer encodes \<^verbatim>\<open>prompt + full_ans\<close>, then the prompt alone;
  the labels are a copy of the ids, masked twice. The boolean-mask assignment needs a
  mask of the shape of the labels.
\<close>

definition encode_and_mask ::
  "tokenizer \<Rightarrow> int \<Rightarrow> string \<Rightarrow> string \<Rightarrow> error + encoded_example" where
  "encode_and_mask tokenizer max_len prompt full_ans =
     (let enc = tokenizer (prompt @ full_ans) max_len;
          inp_ids = enc_input_ids enc;
          attn = enc_attention_mask enc;
          prompt_len = prompt_len_of tokenizer max_len prompt;
          ls = mask_prompt prompt_len inp_ids
      in if length attn \<noteq> length ls then Inl IndexError
         else Inr \<lparr>input_ids = inp_ids, attention_mask = attn,
                   labels = mask_padding attn ls\<rparr>)"

definition preprocess_sample ::
  "(string \<rightharpoonup> string) \<Rightarrow> tokenizer \<Rightarrow> int \<Rightarrow> error + encoded_example" where
  "preprocess_sample example tokenizer max_len =
     (case build_texts example of
        Inl e \<Rightarrow> Inl e
      | Inr (prompt, full_ans) \<Rightarrow> encode_and_mask tokenizer max_len prompt full_ans)"

text \<open>
  The specification's one-pass reading of the masking: position \<open>i\<close> gets the sentinel
  when \<open>i < prompt_len\<close> or the attention mask is 0 there, and keeps its label
  otherwise.
\<close>

definition single_pass_mask :: "int \<Rightarrow> int list \<Rightarrow> int list \<Rightarrow> int list" where
  "single_pass_mask prompt_len attn ls =
     map (\<lambda>i. if int i < prompt_len \<or> attn ! i = 0 then - 100 else ls ! i) [0..<length ls]"

text \<open>
  The specification's count of the real tokens of an encoding: the positions whose
  attention-mask entry is not 0, that is, the positions that are not padding.
\<close>

definition real_tokens :: "int list \<Rightarrow> int" where
  "real_tokens attn = int (length (filter (\<lambda>m. m \<noteq> 0) attn))"

subsection \<open>The tokenizer's contract\<close>

text \<open>
  What the builder relies on: for a positive \<open>max_len\<close> the tokenizer returns exactly
  \<open>max_len\<close> ids (it truncates and pads to that length) and a parallel attention mask
  whose entries are 0 or 1. Nothing is asked about the side of the padding.
\<close>

definition tokenizer_contract :: "tokenizer \<Rightarrow> bool" where
  "tokenizer_contract tok \<longleftrightarrow>
     (\<forall>text max_len. 0 < max_len \<longrightarrow>
        length (enc_input_ids (tok text max_len)) = nat max_len \<and>
        length (enc_attention_mask (tok text max_len)) = nat max_len \<and>
        set (enc_attention_mask (tok text max_len)) \<subseteq> {0, 1})"

text \<open>
  A tokenizer to run the builder on: one token per character (its code point),
  truncated to \<open>max_len\<close> and padded on the right with \<open>pad\<close>.
\<close>

definition char_tokenizer :: "int \<Rightarrow> tokenizer" where
  "char_tokenizer pad text max_len =
     (let kept = take (nat max_len) (map of_char text);
          fill = nat max_len - length kept
      in \<lparr>enc_input_ids = kept @ replicate fill pad,
          enc_attention_mask = replicate (length kept) 1 @ replicate fill 0\<rparr>)"

text \<open>The example of the specification: a question, its answer, no reasoning.\<close>

definition example_sum :: "string \<rightharpoonup> string" where
  "example_sum = [''user'' \<mapsto> ''2+2?'', ''assistant'' \<mapsto> '' 4 '']"

text \<open>The same with a reasoning field.\<close>

definition example_reasoned :: "string \<rightharpoonup> string" where
  "example_reasoned =
     [''user'' \<mapsto> ''2+2?'', ''assistant'' \<mapsto> '' 4 '', ''reasoning'' \<mapsto> '' sum '']"

section \<open>Properties\<close>

lemma char_tokenizer_contract: "tokenizer_contract (char_tokenizer pad)"
  by (auto simp: tokenizer_contract_def char_tokenizer_def Let_def)

subsection \<open>Auxiliary facts\<close>

lemma slice_stop_le: "slice_stop k n \<le> n"
  unfolding slice_stop_def by (cases "k < 0") auto

lemma slice_stop_nonneg: "0 \<le> k \<Longrightarrow> slice_stop k n = min (nat k) n"
  by (simp add: slice_stop_def)

lemma length_mask_prompt: "length (mask_prompt k ls) = length ls"
  by (simp add: mask_prompt_def Let_def slice_stop_le)

lemma length_mask_padding: "length attn = length ls \<Longrightarrow> length (mask_padding attn ls) = length ls"
  by (simp add: mask_padding_def)

lemma mask_prompt_nth:
  "0 \<le> k \<Longrightarrow> i < length ls \<Longrightarrow> mask_prompt k ls ! i = (if int i < k then - 100 else ls ! i)"
  by (auto simp: mask_prompt_def Let_def slice_stop_nonneg nth_append)

lemma mask_padding_nth:
  "length attn = length ls \<Longrightarrow> i < length ls \<Longrightarrow>
   mask_padding attn ls ! i = (if attn ! i = 0 then - 100 else ls ! i)"
  by (simp add: mask_padding_def)

lemma sum_list_mask_count:
  "set xs \<subseteq> {0, 1::int} \<Longrightarrow> sum_list xs = int (length (filter (\<lambda>m. m \<noteq> 0) xs))"
  by (induction xs) auto

lemma sum_list_mask_bounds:
  "set xs \<subseteq> {0, 1::int} \<Longrightarrow> 0 \<le> sum_list xs \<and> sum_list xs \<le> int (length xs)"
  by (induction xs) auto

lemma prompt_len_bounds:
  "tokenizer_contract tok \<Longrightarrow> 0 < n \<Longrightarrow>
   0 \<le> prompt_len_of tok n p \<and> prompt_len_of tok n p \<le> n"
  using sum_list_mask_bounds [of "enc_attention_mask (tok p n)"]
  by (simp add: prompt_len_of_def tokenizer_contract_def)

lemma build_texts_present:
  "example ''user'' = Some u \<Longrightarrow> example ''assistant'' = Some a \<Longrightarrow>
   build_texts example =
     Inr (prompt_of (strip u),
          full_ans_of (strip a) (strip (case example ''reasoning'' of None \<Rightarrow> [] | Some r \<Rightarrow> r)))"
  by (simp add: build_texts_def)

lemma encode_and_mask_contract:
  "tokenizer_contract tok \<Longrightarrow> 0 < n \<Longrightarrow>
   encode_and_mask tok n p t =
     Inr \<lparr>input_ids = enc_input_ids (tok (p @ t) n),
          attention_mask = enc_attention_mask (tok (p @ t) n),
          labels = mask_padding (enc_attention_mask (tok (p @ t) n))
                     (mask_prompt (prompt_len_of tok n p) (enc_input_ids (tok (p @ t) n)))\<rparr>"
  by (simp add: encode_and_mask_def Let_def length_mask_prompt tokenizer_contract_def)


lemma preprocess_sample_present:
  "example ''user'' = Some u \<Longrightarrow> example ''assistant'' = Some a \<Longrightarrow>
   preprocess_sample example tok n =
     encode_and_mask tok n (prompt_of (strip u))
       (full_ans_of (strip a) (strip (case example ''reasoning'' of None \<Rightarrow> [] | Some r \<Rightarrow> r)))"
  by (simp add: preprocess_sample_def build_texts_present)

lemma masks_nth:
  assumes "0 \<le> k" and "length attn = length ls" and "i < length ls"
  shows "mask_padding attn (mask_prompt k ls) ! i =
           (if int i < k \<or> attn ! i = 0 then - 100 else ls ! i)"
  using assms by (simp add: mask_padding_nth length_mask_prompt mask_prompt_nth)

lemma masks_nth_swapped:
  assumes "0 \<le> k" and "length attn = length ls" and "i < length ls"
  shows "mask_prompt k (mask_padding attn ls) ! i =
           (if int i < k \<or> attn ! i = 0 then - 100 else ls ! i)"
  using assms by (simp add: mask_padding_nth length_mask_padding mask_prompt_nth)

lemma run_example_sum_40:
  "preprocess_sample example_sum (char_tokenizer 0) 40 =
     Inr \<lparr>input_ids =
            map of_char ''### User:\<newline>2+2?\<newline>\<newline>### Assistant:\<newline>4'' @ replicate 8 0,
          attention_mask = replicate 32 1 @ replicate 8 0,
          labels = replicate 31 (- 100) @ 52 # replicate 8 (- 100)\<rparr>"
  by code_simp

subsection \<open>Masked labels\<close>

text \<open>
  Claim C1. With a tokenizer that keeps its contract and both required fields present,
  the builder returns, and at every position \<open>i\<close> the label is the sentinel \<open>-100\<close>
  when \<open>i < prompt_len\<close> or the attention mask is 0 at \<open>i\<close>, and the input id at \<open>i\<close>
  otherwise.
\<close>

theorem labels_masked_pointwise:
  assumes "tokenizer_contract tok" and "0 < max_len"
    and "example ''user'' = Some u" and "example ''assistant'' = Some a"
  shows "\<exists>r. preprocess_sample example tok max_len = Inr r \<and>
           (\<forall>i < nat max_len.
              labels r ! i =
                (if int i < prompt_len_of tok max_len (prompt_of (strip u)) \<or>
                    attention_mask r ! i = 0
                 then - 100 else input_ids r ! i))"
proof -
  let ?p = "prompt_of (strip u)"
  let ?t = "full_ans_of (strip a) (strip (case example ''reasoning'' of None \<Rightarrow> [] | Some r \<Rightarrow> r))"
  let ?enc = "tok (?p @ ?t) max_len"
  have len: "length (enc_input_ids ?enc) = nat max_len"
    "length (enc_attention_mask ?enc) = nat max_len"
    using assms(1,2) by (simp_all add: tokenizer_contract_def)
  have k: "0 \<le> prompt_len_of tok max_len ?p"
    using prompt_len_bounds [OF assms(1,2)] by simp
  have run: "preprocess_sample example tok max_len =
      Inr \<lparr>input_ids = enc_input_ids ?enc, attention_mask = enc_attention_mask ?enc,
           labels = mask_padding (enc_attention_mask ?enc)
                      (mask_prompt (prompt_len_of tok max_len ?p) (enc_input_ids ?enc))\<rparr>"
    using assms by (simp add: preprocess_sample_present encode_and_mask_contract)
  show ?thesis
    unfolding run using len k by (simp add: masks_nth)
qed

theorem labels_masked_pointwise_witness:
  "\<exists>r. preprocess_sample example_sum (char_tokenizer 0) 40 = Inr r \<and>
      prompt_len_of (char_tokenizer 0) 40 (prompt_of (strip ''2+2?'')) = 31 \<and>
      labels r ! 30 = - 100 \<and> labels r ! 31 = input_ids r ! 31 \<and>
      attention_mask r ! 32 = 0 \<and> labels r ! 32 = - 100"
proof -
  have c: "tokenizer_contract (char_tokenizer 0)"
    by (rule char_tokenizer_contract)
  have n: "(0::int) < 40" by simp
  have u: "example_sum ''user'' = Some ''2+2?''" by (simp add: example_sum_def)
  have a: "example_sum ''assistant'' = Some '' 4 ''" by (simp add: example_sum_def)
  have k: "prompt_len_of (char_tokenizer 0) 40 (prompt_of (strip ''2+2?'')) = 31"
    by code_simp
  obtain r where r: "preprocess_sample example_sum (char_tokenizer 0) 40 = Inr r"
    and l: "\<forall>i < nat 40. labels r ! i =
              (if int i < prompt_len_of (char_tokenizer 0) 40 (prompt_of (strip ''2+2?'')) \<or>
                  attention_mask r ! i = 0
               then - 100 else input_ids r ! i)"
    using labels_masked_pointwise [OF c n u a] by blast
  have m: "attention_mask r ! 31 = 1" "attention_mask r ! 32 = 0"
    using r unfolding run_example_sum_40 by (auto simp: nth_append)
  show ?thesis
    using r k m l [rule_format, of 30] l [rule_format, of 31] l [rule_format, of 32]
    by simp
qed

subsection \<open>Lengths\<close>

text \<open>
  Claim C2. With a tokenizer that keeps its contract, a positive \<open>max_len\<close> and both
  required fields present, the three returned sequences have length \<open>max_len\<close>.
\<close>

theorem output_lengths:
  assumes "tokenizer_contract tok" and "0 < max_len"
    and "example ''user'' = Some u" and "example ''assistant'' = Some a"
  shows "\<exists>r. preprocess_sample example tok max_len = Inr r \<and>
           length (input_ids r) = nat max_len \<and>
           length (attention_mask r) = nat max_len \<and>
           length (labels r) = nat max_len"
proof -
  let ?p = "prompt_of (strip u)"
  let ?t = "full_ans_of (strip a) (strip (case example ''reasoning'' of None \<Rightarrow> [] | Some r \<Rightarrow> r))"
  let ?enc = "tok (?p @ ?t) max_len"
  have len: "length (enc_input_ids ?enc) = nat max_len"
    "length (enc_attention_mask ?enc) = nat max_len"
    using assms(1,2) by (simp_all add: tokenizer_contract_def)
  have run: "preprocess_sample example tok max_len =
      Inr \<lparr>input_ids = enc_input_ids ?enc, attention_mask = enc_attention_mask ?enc,
           labels = mask_padding (enc_attention_mask ?enc)
                      (mask_prompt (prompt_len_of tok max_len ?p) (enc_input_ids ?enc))\<rparr>"
    using assms by (simp add: preprocess_sample_present encode_and_mask_contract)
  show ?thesis
    unfolding run using len by (simp add: length_mask_padding length_mask_prompt)
qed

theorem output_lengths_witness:
  "\<exists>r. preprocess_sample example_sum (char_tokenizer 0) 40 = Inr r \<and>
      length (input_ids r) = 40 \<and> length (attention_mask r) = 40 \<and> length (labels r) = 40"
proof -
  have c: "tokenizer_contract (char_tokenizer 0)"
    by (rule char_tokenizer_contract)
  have u: "example_sum ''user'' = Some ''2+2?''" by (simp add: example_sum_def)
  have a: "example_sum ''assistant'' = Some '' 4 ''" by (simp add: example_sum_def)
  show ?thesis
    using output_lengths [OF c _ u a, of 40] by simp
qed

subsection \<open>The texts\<close>

text \<open>
  Claim C3. With both required fields present, the target text built by
  \<^verbatim>\<open>preprocess_sample\<close> is the stripped \<open>assistant\<close> alone when the stripped
  \<open>reasoning\<close> (the empty string when the field is absent) is empty, and otherwise the
  stripped \<open>assistant\<close>, the separator \<^verbatim>\<open>"\nReasoning: "\<close> and the stripped
  \<open>reasoning\<close>; this text is the one the builder goes on with.
\<close>

theorem target_text_reasoning:
  assumes "example ''user'' = Some u" and "example ''assistant'' = Some a"
    and "r = (case example ''reasoning'' of None \<Rightarrow> [] | Some x \<Rightarrow> x)"
  shows "\<exists>prompt target.
           build_texts example = Inr (prompt, target) \<and>
           target = (if strip r = [] then strip a
                     else strip a @ ''\<newline>Reasoning: '' @ strip r) \<and>
           preprocess_sample example tok max_len = encode_and_mask tok max_len prompt target"
  using assms
  by (simp add: build_texts_present preprocess_sample_def full_ans_of_def)

theorem target_text_reasoning_witness:
  "(\<exists>prompt. build_texts example_sum = Inr (prompt, ''4'')) \<and>
   (\<exists>prompt. build_texts example_reasoned =
      Inr (prompt, ''4\<newline>Reasoning: sum''))"
proof -
  have u: "example_sum ''user'' = Some ''2+2?''" by (simp add: example_sum_def)
  have a: "example_sum ''assistant'' = Some '' 4 ''" by (simp add: example_sum_def)
  have r: "[] = (case example_sum ''reasoning'' of None \<Rightarrow> [] | Some x \<Rightarrow> x)"
    by (simp add: example_sum_def)
  have u': "example_reasoned ''user'' = Some ''2+2?''"
    by (simp add: example_reasoned_def)
  have a': "example_reasoned ''assistant'' = Some '' 4 ''"
    by (simp add: example_reasoned_def)
  have r': "'' sum '' =
      (case example_reasoned ''reasoning'' of None \<Rightarrow> [] | Some x \<Rightarrow> x)"
    by (simp add: example_reasoned_def)
  have s: "strip [] = []" "strip '' 4 '' = ''4''" "strip '' sum '' = ''sum''"
    by code_simp+
  have "\<exists>prompt. build_texts example_sum = Inr (prompt, ''4'')"
    using target_text_reasoning [OF u a r, of "char_tokenizer 0" 40]
    unfolding s by simp blast
  moreover have "\<exists>prompt. build_texts example_reasoned =
      Inr (prompt, ''4\<newline>Reasoning: sum'')"
    using target_text_reasoning [OF u' a' r', of "char_tokenizer 0" 40]
    unfolding s by simp blast
  ultimately show ?thesis
    by (rule conjI)
qed

text \<open>
  Claim C4. With both required fields present, the prompt is
  \<^verbatim>\<open>"### User:\n" + user + "\n\n### Assistant:\n"\<close> for the stripped \<open>user\<close>, and the text
  whose encoding the builder returns is that prompt immediately followed by the target
  text.
\<close>

theorem full_training_text:
  assumes "example ''user'' = Some u" and "example ''assistant'' = Some a"
    and "build_texts example = Inr (prompt, target)"
    and "preprocess_sample example tok max_len = Inr res"
  shows "prompt = ''### User:\<newline>'' @ strip u @ ''\<newline>\<newline>### Assistant:\<newline>'' \<and>
         input_ids res =
           enc_input_ids
             (tok (''### User:\<newline>'' @ strip u @ ''\<newline>\<newline>### Assistant:\<newline>'' @ target) max_len) \<and>
         attention_mask res =
           enc_attention_mask
             (tok (''### User:\<newline>'' @ strip u @ ''\<newline>\<newline>### Assistant:\<newline>'' @ target) max_len)"
proof -
  have p: "prompt = prompt_of (strip u)"
    using assms(1-3) by (simp add: build_texts_present)
  have "encode_and_mask tok max_len prompt target = Inr res"
    using assms(3,4) by (simp add: preprocess_sample_def)
  then have "input_ids res = enc_input_ids (tok (prompt @ target) max_len) \<and>
      attention_mask res = enc_attention_mask (tok (prompt @ target) max_len)"
    by (auto simp: encode_and_mask_def Let_def split: if_splits)
  then show ?thesis
    using p by (simp add: prompt_of_def)
qed

theorem full_training_text_witness:
  "\<exists>res. preprocess_sample example_sum (char_tokenizer 0) 40 = Inr res \<and>
     input_ids res =
       enc_input_ids
         (char_tokenizer 0 ''### User:\<newline>2+2?\<newline>\<newline>### Assistant:\<newline>4'' 40)"
proof -
  have u: "example_sum ''user'' = Some ''2+2?''" by (simp add: example_sum_def)
  have a: "example_sum ''assistant'' = Some '' 4 ''" by (simp add: example_sum_def)
  have b: "build_texts example_sum =
      Inr (''### User:\<newline>2+2?\<newline>\<newline>### Assistant:\<newline>'', ''4'')"
    by code_simp
  have s: "strip ''2+2?'' = ''2+2?''"
    by code_simp
  show ?thesis
    using full_training_text [OF u a b run_example_sum_40] run_example_sum_40
    by (simp add: s)
qed

subsection \<open>The prompt length\<close>

text \<open>
  Claim C5. With a tokenizer that keeps its contract, a positive \<open>max_len\<close> and both
  required fields present, the prompt length is the number of real (non-padding) tokens
  of the tokenizer's separate encoding of the prompt alone (the template around the
  stripped \<open>user\<close>, without the target) at the same \<open>max_len\<close>, which is the sum of
  that encoding's attention mask. The builder returns the tokenizer's encoding of the
  full text, with the labels masked by exactly that count: the first \<open>prompt_len\<close>
  labels are the sentinel, and after them a label is the sentinel only where the
  attention mask is 0.
\<close>

theorem prompt_len_counts_prompt_tokens:
  assumes "tokenizer_contract tok" and "0 < max_len"
    and "example ''user'' = Some u" and "example ''assistant'' = Some a"
    and "build_texts example = Inr (prompt, target)"
  shows "prompt = prompt_of (strip u) \<and>
         prompt_len_of tok max_len prompt =
           real_tokens (enc_attention_mask (tok (prompt_of (strip u)) max_len)) \<and>
         real_tokens (enc_attention_mask (tok (prompt_of (strip u)) max_len)) =
           sum_list (enc_attention_mask (tok (prompt_of (strip u)) max_len)) \<and>
         preprocess_sample example tok max_len =
           Inr \<lparr>input_ids = enc_input_ids (tok (prompt @ target) max_len),
                attention_mask = enc_attention_mask (tok (prompt @ target) max_len),
                labels =
                  mask_padding (enc_attention_mask (tok (prompt @ target) max_len))
                    (mask_prompt
                       (real_tokens (enc_attention_mask (tok (prompt_of (strip u)) max_len)))
                       (enc_input_ids (tok (prompt @ target) max_len)))\<rparr> \<and>
         mask_padding (enc_attention_mask (tok (prompt @ target) max_len))
           (mask_prompt
              (real_tokens (enc_attention_mask (tok (prompt_of (strip u)) max_len)))
              (enc_input_ids (tok (prompt @ target) max_len))) =
           replicate (nat (real_tokens (enc_attention_mask (tok (prompt_of (strip u)) max_len))))
             (- 100) @
           map2 (\<lambda>m l. if m = 0 then - 100 else l)
             (drop (nat (real_tokens (enc_attention_mask (tok (prompt_of (strip u)) max_len))))
                (enc_attention_mask (tok (prompt @ target) max_len)))
             (drop (nat (real_tokens (enc_attention_mask (tok (prompt_of (strip u)) max_len))))
                (enc_input_ids (tok (prompt @ target) max_len)))"
proof -
  let ?p = "prompt_of (strip u)"
  let ?k = "real_tokens (enc_attention_mask (tok ?p max_len))"
  let ?ids = "enc_input_ids (tok (prompt @ target) max_len)"
  let ?attn = "enc_attention_mask (tok (prompt @ target) max_len)"
  have p: "prompt = ?p"
    using assms(3-5) by (simp add: build_texts_present)
  have "set (enc_attention_mask (tok ?p max_len)) \<subseteq> {0, 1}"
    using assms(1,2) by (simp add: tokenizer_contract_def)
  then have sum: "sum_list (enc_attention_mask (tok ?p max_len)) = ?k"
    unfolding real_tokens_def by (rule sum_list_mask_count)
  then have k: "prompt_len_of tok max_len prompt = ?k"
    using p by (simp add: prompt_len_of_def)
  have run: "preprocess_sample example tok max_len =
      Inr \<lparr>input_ids = ?ids, attention_mask = ?attn,
           labels = mask_padding ?attn (mask_prompt ?k ?ids)\<rparr>"
    using assms(1,2,5) k
    by (simp add: preprocess_sample_def encode_and_mask_contract)
  have len: "length ?ids = nat max_len" "length ?attn = nat max_len"
    using assms(1,2) by (simp_all add: tokenizer_contract_def)
  have bounds: "0 \<le> ?k" "?k \<le> max_len"
    using prompt_len_bounds [OF assms(1,2), of prompt] k by simp_all
  then have stop: "slice_stop ?k (length ?ids) = nat ?k"
    using len by (simp add: slice_stop_nonneg)
  have attn: "?attn = take (nat ?k) ?attn @ drop (nat ?k) ?attn"
    by simp
  have "mask_padding ?attn (mask_prompt ?k ?ids) =
      map2 (\<lambda>m l. if m = 0 then - 100 else l)
        (take (nat ?k) ?attn @ drop (nat ?k) ?attn)
        (replicate (nat ?k) (- 100) @ drop (nat ?k) ?ids)"
    unfolding mask_padding_def mask_prompt_def Let_def stop by simp
  also have "\<dots> =
      map2 (\<lambda>m l. if m = 0 then - 100 else l) (take (nat ?k) ?attn) (replicate (nat ?k) (- 100)) @
      map2 (\<lambda>m l. if m = 0 then - 100 else l) (drop (nat ?k) ?attn) (drop (nat ?k) ?ids)"
    using len bounds by (subst zip_append) simp_all
  also have "map2 (\<lambda>m l. if m = 0 then - 100 else l) (take (nat ?k) ?attn)
        (replicate (nat ?k) (- 100)) = replicate (nat ?k) (- 100)"
    using len bounds by (intro nth_equalityI) simp_all
  finally have shape: "mask_padding ?attn (mask_prompt ?k ?ids) =
      replicate (nat ?k) (- 100) @
      map2 (\<lambda>m l. if m = 0 then - 100 else l) (drop (nat ?k) ?attn) (drop (nat ?k) ?ids)" .
  show ?thesis
    using p k sum run shape by simp
qed

theorem prompt_len_counts_prompt_tokens_witness:
  "real_tokens (enc_attention_mask (char_tokenizer 0 (prompt_of (strip ''2+2?'')) 40)) = 31 \<and>
   prompt_len_of (char_tokenizer 0) 40 (prompt_of (strip ''2+2?'')) = 31 \<and>
   preprocess_sample example_sum (char_tokenizer 0) 40 =
     Inr \<lparr>input_ids = enc_input_ids (char_tokenizer 0 (prompt_of (strip ''2+2?'') @ ''4'') 40),
          attention_mask =
            enc_attention_mask (char_tokenizer 0 (prompt_of (strip ''2+2?'') @ ''4'') 40),
          labels = replicate 31 (- 100) @ 52 # replicate 8 (- 100)\<rparr>"
proof -
  have c: "tokenizer_contract (char_tokenizer 0)"
    by (rule char_tokenizer_contract)
  have n: "(0::int) < 40" by simp
  have u: "example_sum ''user'' = Some ''2+2?''" by (simp add: example_sum_def)
  have a: "example_sum ''assistant'' = Some '' 4 ''" by (simp add: example_sum_def)
  have b: "build_texts example_sum = Inr (prompt_of (strip ''2+2?''), ''4'')"
    by code_simp
  have r: "real_tokens (enc_attention_mask (char_tokenizer 0 (prompt_of (strip ''2+2?'')) 40)) = 31"
    by code_simp
  have m: "mask_padding
      (enc_attention_mask (char_tokenizer 0 (prompt_of (strip ''2+2?'') @ ''4'') 40))
      (mask_prompt 31 (enc_input_ids (char_tokenizer 0 (prompt_of (strip ''2+2?'') @ ''4'') 40))) =
      replicate 31 (- 100) @ 52 # replicate 8 (- 100)"
    by code_simp
  show ?thesis
    using prompt_len_counts_prompt_tokens [OF c n u a b] unfolding r m by simp
qed

text \<open>
  Claim C10. For a tokenizer that keeps its contract, the prompt length is between 0
  and \<open>max_len\<close>: the slice \<^verbatim>\<open>labels[:prompt_len]\<close> of \<open>max_len\<close> labels ends at
  \<open>prompt_len\<close> itself, and a prompt length that reaches \<open>max_len\<close> is equal to it.
\<close>

theorem prompt_len_within_budget:
  assumes "tokenizer_contract tok" and "0 < max_len"
  shows "0 \<le> prompt_len_of tok max_len prompt \<and>
         prompt_len_of tok max_len prompt \<le> max_len \<and>
         slice_stop (prompt_len_of tok max_len prompt) (nat max_len) =
           nat (prompt_len_of tok max_len prompt) \<and>
         (max_len \<le> prompt_len_of tok max_len prompt \<longrightarrow>
            prompt_len_of tok max_len prompt = max_len)"
  using prompt_len_bounds [OF assms, of prompt]
  by (auto simp: slice_stop_def)

theorem prompt_len_within_budget_witness:
  "prompt_len_of (char_tokenizer 0) 16 (prompt_of ''2+2?'') = 16 \<and>
   slice_stop (prompt_len_of (char_tokenizer 0) 16 (prompt_of ''2+2?'')) (nat 16) = 16"
proof -
  have c: "tokenizer_contract (char_tokenizer 0)"
    by (rule char_tokenizer_contract)
  have n: "(0::int) < 16" by simp
  have k: "(16::int) \<le> prompt_len_of (char_tokenizer 0) 16 (prompt_of ''2+2?'')"
    by code_simp
  show ?thesis
    using prompt_len_within_budget [OF c n, of "prompt_of ''2+2?''"] k by auto
qed

text \<open>
  Claim C6. When the prompt length reaches \<open>max_len\<close>, the builder still returns, and
  every label is the sentinel.
\<close>

theorem prompt_fills_budget:
  assumes "tokenizer_contract tok" and "0 < max_len"
    and "example ''user'' = Some u" and "example ''assistant'' = Some a"
    and "max_len \<le> prompt_len_of tok max_len (prompt_of (strip u))"
  shows "\<exists>r. preprocess_sample example tok max_len = Inr r \<and>
           labels r = replicate (nat max_len) (- 100)"
proof -
  let ?p = "prompt_of (strip u)"
  let ?t = "full_ans_of (strip a) (strip (case example ''reasoning'' of None \<Rightarrow> [] | Some r \<Rightarrow> r))"
  let ?enc = "tok (?p @ ?t) max_len"
  let ?k = "prompt_len_of tok max_len ?p"
  have len: "length (enc_input_ids ?enc) = nat max_len"
    "length (enc_attention_mask ?enc) = nat max_len"
    using assms(1,2) by (simp_all add: tokenizer_contract_def)
  have k: "0 \<le> ?k"
    using assms(2,5) by simp
  have "mask_padding (enc_attention_mask ?enc) (mask_prompt ?k (enc_input_ids ?enc)) =
      replicate (nat max_len) (- 100)"
  proof (rule nth_equalityI)
    show "length (mask_padding (enc_attention_mask ?enc) (mask_prompt ?k (enc_input_ids ?enc))) =
        length (replicate (nat max_len) (- 100 :: int))"
      using len by (simp add: length_mask_padding length_mask_prompt)
  next
    fix i
    assume "i < length (mask_padding (enc_attention_mask ?enc) (mask_prompt ?k (enc_input_ids ?enc)))"
    then have i: "i < nat max_len"
      using len by (simp add: length_mask_padding length_mask_prompt)
    then have "int i < ?k"
      using assms(5) by simp
    then show "mask_padding (enc_attention_mask ?enc) (mask_prompt ?k (enc_input_ids ?enc)) ! i =
        replicate (nat max_len) (- 100) ! i"
      using i len k by (simp add: masks_nth)
  qed
  then show ?thesis
    using assms(1-4) by (simp add: preprocess_sample_present encode_and_mask_contract)
qed

theorem prompt_fills_budget_witness:
  "\<exists>r. preprocess_sample example_sum (char_tokenizer 0) 16 = Inr r \<and>
      labels r = replicate 16 (- 100)"
proof -
  have c: "tokenizer_contract (char_tokenizer 0)"
    by (rule char_tokenizer_contract)
  have n: "(0::int) < 16" by simp
  have u: "example_sum ''user'' = Some ''2+2?''" by (simp add: example_sum_def)
  have a: "example_sum ''assistant'' = Some '' 4 ''" by (simp add: example_sum_def)
  have k: "(16::int) \<le> prompt_len_of (char_tokenizer 0) 16 (prompt_of (strip ''2+2?''))"
    by code_simp
  show ?thesis
    using prompt_fills_budget [OF c n u a k] by simp
qed

subsection \<open>Missing fields\<close>

text \<open>
  Claim C7. Without a \<open>user\<close> field the builder fails with the key error of
  \<open>user\<close>; with it and without an \<open>assistant\<close> field, with the key error of
  \<open>assistant\<close>. With both fields, a tokenizer that keeps its contract and a positive
  \<open>max_len\<close> it returns a result, whether or not there is a \<open>reasoning\<close> field.
\<close>

theorem missing_fields:
  "(example ''user'' = None \<longrightarrow>
      preprocess_sample example tok max_len = Inl (KeyError ''user'')) \<and>
   (example ''user'' \<noteq> None \<and> example ''assistant'' = None \<longrightarrow>
      preprocess_sample example tok max_len = Inl (KeyError ''assistant'')) \<and>
   (example ''user'' \<noteq> None \<and> example ''assistant'' \<noteq> None \<and>
    tokenizer_contract tok \<and> 0 < max_len \<longrightarrow>
      (\<exists>r. preprocess_sample example tok max_len = Inr r))"
  by (auto simp: preprocess_sample_def build_texts_def encode_and_mask_contract)

theorem missing_fields_witness:
  "preprocess_sample [''assistant'' \<mapsto> ''4''] (char_tokenizer 0) 40 = Inl (KeyError ''user'') \<and>
   preprocess_sample [''user'' \<mapsto> ''2+2?''] (char_tokenizer 0) 40 = Inl (KeyError ''assistant'') \<and>
   example_sum ''reasoning'' = None \<and>
   (\<exists>r. preprocess_sample example_sum (char_tokenizer 0) 40 = Inr r) \<and>
   (\<exists>r. preprocess_sample example_reasoned (char_tokenizer 0) 40 = Inr r)"
proof -
  have c: "tokenizer_contract (char_tokenizer 0)"
    by (rule char_tokenizer_contract)
  have "preprocess_sample [''assistant'' \<mapsto> ''4''] (char_tokenizer 0) 40 = Inl (KeyError ''user'')"
    using missing_fields [of "[''assistant'' \<mapsto> ''4'']" "char_tokenizer 0" 40] by simp
  moreover have "preprocess_sample [''user'' \<mapsto> ''2+2?''] (char_tokenizer 0) 40 =
      Inl (KeyError ''assistant'')"
    using missing_fields [of "[''user'' \<mapsto> ''2+2?'']" "char_tokenizer 0" 40] by simp
  moreover have "example_sum ''reasoning'' = None"
    by (simp add: example_sum_def)
  moreover have "\<exists>r. preprocess_sample example_sum (char_tokenizer 0) 40 = Inr r"
    using missing_fields [of example_sum "char_tokenizer 0" 40] c
    by (simp add: example_sum_def)
  moreover have "\<exists>r. preprocess_sample example_reasoned (char_tokenizer 0) 40 = Inr r"
    using missing_fields [of example_reasoned "char_tokenizer 0" 40] c
    by (simp add: example_reasoned_def)
  ultimately show ?thesis
    by simp
qed

subsection \<open>The order of the two masks\<close>

text \<open>
  Claim C8. For a prompt length that is not negative and an attention mask of the length
  of the labels, masking the prompt and then the padding, as the builder does, gives the
  one-pass result of the specification, and so does masking the padding first.
\<close>

theorem mask_order_irrelevant:
  assumes "0 \<le> prompt_len" and "length attn = length ls"
  shows "mask_padding attn (mask_prompt prompt_len ls) = single_pass_mask prompt_len attn ls \<and>
         mask_prompt prompt_len (mask_padding attn ls) = single_pass_mask prompt_len attn ls"
proof
  show "mask_padding attn (mask_prompt prompt_len ls) = single_pass_mask prompt_len attn ls"
    by (rule nth_equalityI)
      (simp_all add: single_pass_mask_def length_mask_padding length_mask_prompt masks_nth assms)
  show "mask_prompt prompt_len (mask_padding attn ls) = single_pass_mask prompt_len attn ls"
    by (rule nth_equalityI)
      (simp_all add: single_pass_mask_def length_mask_padding length_mask_prompt
        masks_nth_swapped assms)
qed

theorem mask_order_irrelevant_witness:
  "mask_padding [1, 1, 1, 0] (mask_prompt 2 [7, 8, 9, 5]) = [- 100, - 100, 9, - 100] \<and>
   mask_prompt 2 (mask_padding [1, 1, 1, 0] [7, 8, 9, 5]) = [- 100, - 100, 9, - 100] \<and>
   single_pass_mask 2 [1, 1, 1, 0] [7, 8, 9, 5] = [- 100, - 100, 9, - 100]"
proof -
  have s: "single_pass_mask 2 [1, 1, 1, 0] [7, 8, 9, 5] = [- 100, - 100, 9, - 100]"
    by code_simp
  show ?thesis
    using mask_order_irrelevant [of 2 "[1, 1, 1, 0]" "[7, 8, 9, 5]"] s by simp
qed

end
